theory Spec2Isabelle
  imports Complex_Main
begin

section \<open>Numbers\<close>

text \<open>
  The notebook computes on NumPy \<open>float64\<close> values. They are modelled as exact real
  numbers extended with the three special values of IEEE 754, because the program never
  tests for them and lets them propagate: a division by zero yields an infinity or a
  NaN (NumPy emits a warning, it raises no exception), and \<open>inf * 0\<close>, \<open>inf - inf\<close>
  and \<open>0 / 0\<close> yield NaN. Rounding, overflow, underflow and the sign of zero are not
  modelled in these operations: a finite value is the exact real, and zero is the
  positive zero.
\<close>

datatype fl = Fin real | PInf | NInf | NaN

fun fneg :: "fl \<Rightarrow> fl" where
  "fneg (Fin a) = Fin (- a)"
| "fneg PInf = NInf"
| "fneg NInf = PInf"
| "fneg NaN = NaN"

fun fadd :: "fl \<Rightarrow> fl \<Rightarrow> fl" where
  "fadd (Fin a) (Fin b) = Fin (a + b)"
| "fadd (Fin a) PInf = PInf"
| "fadd (Fin a) NInf = NInf"
| "fadd PInf (Fin b) = PInf"
| "fadd PInf PInf = PInf"
| "fadd PInf NInf = NaN"
| "fadd NInf (Fin b) = NInf"
| "fadd NInf PInf = NaN"
| "fadd NInf NInf = NInf"
| "fadd NaN y = NaN"
| "fadd x NaN = NaN"

fun fmul :: "fl \<Rightarrow> fl \<Rightarrow> fl" where
  "fmul (Fin a) (Fin b) = Fin (a * b)"
| "fmul (Fin a) PInf = (if a = 0 then NaN else if 0 < a then PInf else NInf)"
| "fmul (Fin a) NInf = (if a = 0 then NaN else if 0 < a then NInf else PInf)"
| "fmul PInf (Fin b) = (if b = 0 then NaN else if 0 < b then PInf else NInf)"
| "fmul NInf (Fin b) = (if b = 0 then NaN else if 0 < b then NInf else PInf)"
| "fmul PInf PInf = PInf"
| "fmul PInf NInf = NInf"
| "fmul NInf PInf = NInf"
| "fmul NInf NInf = PInf"
| "fmul NaN y = NaN"
| "fmul x NaN = NaN"

fun fdiv :: "fl \<Rightarrow> fl \<Rightarrow> fl" where
  "fdiv (Fin a) (Fin b) =
     (if b = 0 then (if a = 0 then NaN else if 0 < a then PInf else NInf)
      else Fin (a / b))"
| "fdiv (Fin a) PInf = Fin 0"
| "fdiv (Fin a) NInf = Fin 0"
| "fdiv PInf (Fin b) = (if 0 \<le> b then PInf else NInf)"
| "fdiv NInf (Fin b) = (if 0 \<le> b then NInf else PInf)"
| "fdiv PInf PInf = NaN"
| "fdiv PInf NInf = NaN"
| "fdiv NInf PInf = NaN"
| "fdiv NInf NInf = NaN"
| "fdiv NaN y = NaN"
| "fdiv x NaN = NaN"

instantiation fl :: "{plus, minus, uminus, times, inverse}"
begin

definition plus_fl :: "fl \<Rightarrow> fl \<Rightarrow> fl" where
  "plus_fl x y = fadd x y"

definition minus_fl :: "fl \<Rightarrow> fl \<Rightarrow> fl" where
  "minus_fl x y = fadd x (fneg y)"

definition uminus_fl :: "fl \<Rightarrow> fl" where
  "uminus_fl x = fneg x"

definition times_fl :: "fl \<Rightarrow> fl \<Rightarrow> fl" where
  "times_fl x y = fmul x y"

definition divide_fl :: "fl \<Rightarrow> fl \<Rightarrow> fl" where
  "divide_fl x y = fdiv x y"

definition inverse_fl :: "fl \<Rightarrow> fl" where
  "inverse_fl x = fdiv (Fin 1) x"

instance ..

end

text \<open>
  \<open>x ** n\<close> for an integer exponent, as C's \<open>pow\<close> defines it on the special values:
  anything to the power 0 is 1 (also NaN), zero to a negative power is \<open>+inf\<close>.
\<close>

definition fpow :: "fl \<Rightarrow> int \<Rightarrow> fl" where
  "fpow x n =
     (if n = 0 then Fin 1
      else case x of
        Fin a \<Rightarrow> (if 0 < n then Fin (a ^ nat n)
                  else if a = 0 then PInf
                  else Fin (1 / a ^ nat (- n)))
      | PInf \<Rightarrow> (if 0 < n then PInf else Fin 0)
      | NInf \<Rightarrow> (if 0 < n then (if even n then PInf else NInf) else Fin 0)
      | NaN \<Rightarrow> NaN)"

text \<open>\<open>np.square\<close>, elementwise \<open>x * x\<close>.\<close>

definition square :: "fl \<Rightarrow> fl" where
  "square x = x * x"

text \<open>The comparison \<open>x < y\<close>: false as soon as one side is NaN.\<close>

fun fless :: "fl \<Rightarrow> fl \<Rightarrow> bool" where
  "fless (Fin a) (Fin b) = (a < b)"
| "fless (Fin a) PInf = True"
| "fless NInf (Fin b) = True"
| "fless NInf PInf = True"
| "fless x y = False"

text \<open>A Python \<open>int\<close> entering a floating-point operation.\<close>

definition fl_of_int :: "int \<Rightarrow> fl" where
  "fl_of_int n = Fin (of_int n)"


section \<open>The potential\<close>

text \<open>
  A potential is called on the whole grid array and answers elementwise, so it is a
  function on one radius, mapped over the grid. \<open>square_well\<close> is
  \<open>np.where(r < r_0, V_0, 0)\<close>; its defaults are \<open>r_0 = 4\<close> and \<open>V_0 = -10\<close>.
\<close>

definition square_well :: "fl \<Rightarrow> fl \<Rightarrow> fl \<Rightarrow> fl" where
  "square_well r_0 V_0 r = (if fless r r_0 then V_0 else Fin 0)"

definition square_well_default :: "fl \<Rightarrow> fl" where
  "square_well_default = square_well (Fin 4) (Fin (- 10))"


section \<open>The Numerov solver\<close>

datatype error = IndexError | OverflowError

text \<open>\<open>V_eff = V(r) + (l * (l + 1) / np.square(r))\<close>, an array as long as the grid.\<close>

definition numerov_V_eff :: "(fl \<Rightarrow> fl) \<Rightarrow> fl list \<Rightarrow> int \<Rightarrow> fl list" where
  "numerov_V_eff V r l = map (\<lambda>x. V x + fl_of_int (l * (l + 1)) / square x) r"

text \<open>\<open>f = k**2 - V_eff\<close>: the third argument of the solver is squared here.\<close>

definition numerov_f :: "(fl \<Rightarrow> fl) \<Rightarrow> fl list \<Rightarrow> fl \<Rightarrow> int \<Rightarrow> fl list" where
  "numerov_f V r k l = map (\<lambda>v. fpow k 2 - v) (numerov_V_eff V r l)"

text \<open>The divisor of the update in iteration \<open>i\<close>: \<open>1 + (h**2 / 12) * f[i + 1]\<close>.\<close>

definition numerov_denominator :: "fl \<Rightarrow> fl list \<Rightarrow> nat \<Rightarrow> fl" where
  "numerov_denominator h f i = Fin 1 + (fpow h 2 / Fin 12) * f ! (i + 1)"

text \<open>The value stored into \<open>u[i + 1]\<close> in iteration \<open>i\<close>, from \<open>u[i]\<close> and \<open>u[i - 1]\<close>.\<close>

definition numerov_update :: "fl \<Rightarrow> fl list \<Rightarrow> nat \<Rightarrow> fl \<Rightarrow> fl \<Rightarrow> fl" where
  "numerov_update h f i ui ui1 =
     (Fin 2 * (Fin 1 - (Fin 5 * fpow h 2 / Fin 12) * f ! i) * ui -
      (Fin 1 + (fpow h 2 / Fin 12) * f ! (i - 1)) * ui1) /
     numerov_denominator h f i"

text \<open>One iteration of the loop body: the assignment to \<open>u[i + 1]\<close>.\<close>

definition numerov_step :: "fl \<Rightarrow> fl list \<Rightarrow> nat \<Rightarrow> fl list \<Rightarrow> fl list" where
  "numerov_step h f i u = u[i + 1 := numerov_update h f i (u ! i) (u ! (i - 1))]"

text \<open>The loop \<open>for i in range(1, N - 1)\<close>.\<close>

definition numerov_loop :: "fl \<Rightarrow> fl list \<Rightarrow> nat \<Rightarrow> fl list \<Rightarrow> fl list" where
  "numerov_loop h f N u = fold (numerov_step h f) [1..<N - 1] u"

text \<open>The two seed assignments on the fresh array \<open>np.zeros(N)\<close>.\<close>

definition numerov_seed :: "fl list \<Rightarrow> int \<Rightarrow> fl list" where
  "numerov_seed r l = ((replicate (length r) (Fin 0))[0 := Fin 0])[1 := fpow (r ! 1) (l + 1)]"

text \<open>
  \<open>numerov_solve(V, r, k, l)\<close>. Reading \<open>r[1]\<close> in the first statement raises
  \<open>IndexError\<close> on a grid of fewer than two points. Overflow is not part of this
  function: it is the call in arithmetic that never overflows (the \<open>OverflowError\<close> of
  \<open>k**2\<close> on a Python float is added by \<open>numerov_solve_pyfloat\<close> below). As a pair of
  arrays the result is \<open>(r, u)\<close>.
\<close>

definition numerov_solve ::
    "(fl \<Rightarrow> fl) \<Rightarrow> fl list \<Rightarrow> fl \<Rightarrow> int \<Rightarrow> error + fl list \<times> fl list" where
  "numerov_solve V r k l =
     (if length r < 2 then Inl IndexError
      else
        let h = r ! 1 - r ! 0;
            N = length r;
            u = numerov_seed r l;
            f = numerov_f V r k l
        in Inr (r, numerov_loop h f N u))"

text \<open>
  The Python value of the \<open>return r, u\<close> statement: a tuple of the two arrays. \<open>py_len\<close>
  is Python's \<open>len\<close> on such a value.
\<close>

datatype pyval = Array "fl list" | Tuple "pyval list"

fun py_len :: "pyval \<Rightarrow> nat" where
  "py_len (Array xs) = length xs"
| "py_len (Tuple vs) = length vs"

definition numerov_solve_value ::
    "(fl \<Rightarrow> fl) \<Rightarrow> fl list \<Rightarrow> fl \<Rightarrow> int \<Rightarrow> error + pyval" where
  "numerov_solve_value V r k l =
     (case numerov_solve V r k l of
        Inl e \<Rightarrow> Inl e
      | Inr (g, u) \<Rightarrow> Inr (Tuple [Array g, Array u]))"

text \<open>
  The notebook passes \<open>k\<close> as a Python float (\<open>k = 1.2\<close>). Python's own float power
  does not return an infinity as NumPy does: \<open>k**2\<close> raises \<open>OverflowError\<close> when \<open>k\<close>
  is finite and its square rounds to an infinity, which is from \<open>2^1024 - 2^970\<close> on
  (the largest float64 plus half a unit in its last place). This is the one overflow
  that changes which calls fail, so it is the one overflow modelled. The statement
  \<open>f = k**2 - V_eff\<close> comes after the read of \<open>r[1]\<close>, hence the order of the two checks.
\<close>

definition float_square_overflows :: "fl \<Rightarrow> bool" where
  "float_square_overflows k = (case k of Fin a \<Rightarrow> 2 ^ 1024 - 2 ^ 970 \<le> a * a | _ \<Rightarrow> False)"

definition numerov_solve_pyfloat ::
    "(fl \<Rightarrow> fl) \<Rightarrow> fl list \<Rightarrow> fl \<Rightarrow> int \<Rightarrow> error + fl list \<times> fl list" where
  "numerov_solve_pyfloat V r k l =
     (if length r < 2 then Inl IndexError
      else if float_square_overflows k then Inl OverflowError
      else numerov_solve V r k l)"


section \<open>The solver on a store of arrays\<close>

text \<open>
  NumPy arrays are mutable objects and the solver writes \<open>u\<close> in place. To state what
  the call does to the arrays that exist before it, the same body is modelled on a
  store: a list of arrays, an address being an index into it. \<open>np.zeros\<close> and the
  array-valued assignments to \<open>V_eff\<close> and \<open>f\<close> allocate a new array at the end of the
  store (the temporaries inside one expression are not kept); the function returns the
  addresses of \<open>r\<close> and \<open>u\<close>.
\<close>

type_synonym store = "fl list list"

definition alloc :: "fl list \<Rightarrow> store \<Rightarrow> nat \<times> store" where
  "alloc xs s = (length s, s @ [xs])"

definition store_loop :: "fl \<Rightarrow> nat \<Rightarrow> nat \<Rightarrow> nat \<Rightarrow> store \<Rightarrow> store" where
  "store_loop h fa ua N s =
     fold (\<lambda>i s. s[ua := numerov_step h (s ! fa) i (s ! ua)]) [1..<N - 1] s"

definition numerov_solve_st ::
    "(fl \<Rightarrow> fl) \<Rightarrow> nat \<Rightarrow> fl \<Rightarrow> int \<Rightarrow> store \<Rightarrow> (error + nat \<times> nat) \<times> store" where
  "numerov_solve_st V ra k l s =
     (if length (s ! ra) < 2 then (Inl IndexError, s)
      else
        let h = (s ! ra) ! 1 - (s ! ra) ! 0;
            N = length (s ! ra);
            (ua, s1) = alloc (replicate N (Fin 0)) s;
            s2 = s1[ua := (s1 ! ua)[0 := Fin 0]];
            s3 = s2[ua := (s2 ! ua)[1 := fpow ((s2 ! ra) ! 1) (l + 1)]];
            (va, s4) = alloc (numerov_V_eff V (s3 ! ra) l) s3;
            (fa, s5) = alloc (map (\<lambda>v. fpow k 2 - v) (s4 ! va)) s4;
            s6 = store_loop h fa ua N s5
        in (Inr (ra, ua), s6))"

text \<open>What a caller sees through a result: the error, or the contents of the two arrays.\<close>

definition deref :: "(error + nat \<times> nat) \<times> store \<Rightarrow> error + fl list \<times> fl list" where
  "deref x = (case x of (Inl e, s) \<Rightarrow> Inl e | (Inr (g, u), s) \<Rightarrow> Inr (s ! g, s ! u))"


section \<open>Arithmetic on the special values\<close>

lemmas fl_arith = plus_fl_def minus_fl_def uminus_fl_def times_fl_def divide_fl_def

lemmas numerov_eval = numerov_solve_def numerov_seed_def numerov_f_def numerov_V_eff_def
  numerov_loop_def numerov_step_def numerov_update_def numerov_denominator_def
  fl_arith fpow_def square_def fl_of_int_def Let_def

lemma fadd_NaN_right [simp]: "fadd x NaN = NaN"
  by (cases x) simp_all

lemma fmul_NaN_right [simp]: "fmul x NaN = NaN"
  by (cases x) simp_all

lemma fdiv_NaN_right [simp]: "fdiv x NaN = NaN"
  by (cases x) simp_all

lemma fpow_neg_2: "fpow (- k) 2 = fpow k 2"
  by (cases k) (simp_all add: fpow_def uminus_fl_def)

lemma fpow_2_times: "fpow k 2 = k * k"
  by (cases k) (simp_all add: fpow_def times_fl_def power2_eq_square)




section \<open>The loop\<close>

lemma length_numerov_step [simp]: "length (numerov_step h f i u) = length u"
  by (simp add: numerov_step_def)

lemma length_fold_numerov_step [simp]:
  "length (fold (numerov_step h f) js u) = length u"
  by (induction js arbitrary: u) simp_all

text \<open>An entry that no iteration of \<open>js\<close> assigns keeps its value.\<close>

lemma fold_numerov_step_untouched:
  "\<forall>i \<in> set js. j \<noteq> i + 1 \<Longrightarrow> fold (numerov_step h f) js u ! j = u ! j"
proof (induction js arbitrary: u)
  case Nil
  show ?case by simp
next
  case (Cons a js)
  have "fold (numerov_step h f) (a # js) u ! j = numerov_step h f a u ! j"
    using Cons by simp
  also have "\<dots> = u ! j"
    using Cons.prems by (simp add: numerov_step_def)
  finally show ?case .
qed

lemma range_split: "m \<le> n \<Longrightarrow> 1 \<le> m \<Longrightarrow> [1..<n] = [1..<m] @ [m..<n]"
  by (metis le_Suc_ex upt_add_eq_append One_nat_def)

text \<open>After iteration \<open>m - 1\<close> the entries up to index \<open>m\<close> are final.\<close>

lemma fold_numerov_step_prefix:
  assumes "1 \<le> m" "m \<le> n" "j \<le> m"
  shows "fold (numerov_step h f) [1..<n] u ! j = fold (numerov_step h f) [1..<m] u ! j"
proof -
  have "fold (numerov_step h f) [1..<n] u =
        fold (numerov_step h f) [m..<n] (fold (numerov_step h f) [1..<m] u)"
    using assms by (subst range_split [of m n]) simp_all
  moreover have "\<forall>i \<in> set [m..<n]. j \<noteq> i + 1"
    using assms by auto
  ultimately show ?thesis
    by (simp add: fold_numerov_step_untouched)
qed

lemma fold_numerov_step_recurrence:
  assumes "1 \<le> i" "i + 1 \<le> n" "i + 1 < length u"
  shows "fold (numerov_step h f) [1..<n] u ! (i + 1) =
         numerov_update h f i (fold (numerov_step h f) [1..<n] u ! i)
                              (fold (numerov_step h f) [1..<n] u ! (i - 1))"
proof -
  let ?U = "\<lambda>m. fold (numerov_step h f) [1..<m] u"
  have a: "?U n ! (i + 1) = ?U (i + 1) ! (i + 1)"
    using assms by (intro fold_numerov_step_prefix) simp_all
  have b: "?U n ! i = ?U i ! i"
    using assms by (intro fold_numerov_step_prefix) simp_all
  have c: "?U n ! (i - 1) = ?U i ! (i - 1)"
    using assms by (intro fold_numerov_step_prefix) simp_all
  have "?U (i + 1) = numerov_step h f i (?U i)"
    using assms by simp
  then have "?U (i + 1) ! (i + 1) = numerov_update h f i (?U i ! i) (?U i ! (i - 1))"
    using assms by (simp add: numerov_step_def)
  with a b c show ?thesis by simp
qed

lemma numerov_seed_length [simp]: "length (numerov_seed r l) = length r"
  by (simp add: numerov_seed_def)

lemma numerov_loop_length [simp]: "length (numerov_loop h f N u) = length u"
  by (simp add: numerov_loop_def)

lemma numerov_loop_seed:
  "j \<le> 1 \<Longrightarrow> numerov_loop h f N u ! j = u ! j"
  unfolding numerov_loop_def by (rule fold_numerov_step_untouched) auto

lemma numerov_solve_returns:
  "2 \<le> length r \<Longrightarrow>
   numerov_solve V r k l =
     Inr (r, numerov_loop (r ! 1 - r ! 0) (numerov_f V r k l) (length r) (numerov_seed r l))"
  by (simp add: numerov_solve_def Let_def)

lemma numerov_loop_recurrence:
  assumes "1 \<le> i" and "i + 2 \<le> length u"
  shows "numerov_loop h f (length u) u ! (i + 1) =
         numerov_update h f i (numerov_loop h f (length u) u ! i)
                              (numerov_loop h f (length u) u ! (i - 1))"
  unfolding numerov_loop_def using assms
  by (intro fold_numerov_step_recurrence) simp_all

text \<open>
  The result of the loop is determined by the two seed entries: every other entry of the
  array the loop starts from is overwritten before it is read.
\<close>

lemma numerov_loop_nth_eq:
  assumes len: "length u' = length u"
    and s0: "u' ! 0 = u ! 0" and s1: "u' ! 1 = u ! 1"
  shows "j < length u \<Longrightarrow>
         numerov_loop h f (length u) u' ! j = numerov_loop h f (length u) u ! j"
proof (induction j rule: less_induct)
  case (less j)
  show ?case
  proof (cases "j \<le> 1")
    case True
    then have "j = 0 \<or> j = 1" by linarith
    with s0 s1 True show ?thesis
      by (auto simp add: numerov_loop_seed)
  next
    case False
    define i where "i = j - 1"
    with False have i: "j = i + 1" "1 \<le> i"
      by simp_all
    with less.prems have in_range: "i + 2 \<le> length u"
      by simp
    have a: "numerov_loop h f (length u) u' ! i = numerov_loop h f (length u) u ! i"
      using i less.prems by (intro less.IH) simp_all
    have b: "numerov_loop h f (length u) u' ! (i - 1) =
             numerov_loop h f (length u) u ! (i - 1)"
      using i less.prems by (intro less.IH) simp_all
    have in_range': "i + 2 \<le> length u'"
      using in_range len by simp
    have "numerov_loop h f (length u) u' ! (i + 1) =
          numerov_update h f i (numerov_loop h f (length u) u' ! i)
                               (numerov_loop h f (length u) u' ! (i - 1))"
      using numerov_loop_recurrence [OF i(2) in_range', of h f] len by simp
    also have "\<dots> = numerov_update h f i (numerov_loop h f (length u) u ! i)
                               (numerov_loop h f (length u) u ! (i - 1))"
      by (simp only: a b)
    also have "\<dots> = numerov_loop h f (length u) u ! (i + 1)"
      by (rule numerov_loop_recurrence [OF i(2) in_range, symmetric])
    finally show ?thesis
      by (simp only: i(1))
  qed
qed

lemma numerov_loop_assigns_all:
  assumes "length u' = length u" and "u' ! 0 = u ! 0" and "u' ! 1 = u ! 1"
  shows "numerov_loop h f (length u) u' = numerov_loop h f (length u) u"
proof (rule nth_equalityI)
  show "length (numerov_loop h f (length u) u') = length (numerov_loop h f (length u) u)"
    using assms by simp
next
  fix j
  assume "j < length (numerov_loop h f (length u) u')"
  then have "j < length u"
    using assms by simp
  with assms show "numerov_loop h f (length u) u' ! j = numerov_loop h f (length u) u ! j"
    by (rule numerov_loop_nth_eq)
qed

lemma numerov_solve_any_initial:
  assumes "2 \<le> length r" and "length u0 = length r"
  shows "numerov_loop h f (length r) ((u0[0 := Fin 0])[1 := fpow (r ! 1) (l + 1)]) =
         numerov_loop h f (length r) (numerov_seed r l)"
proof -
  have "0 < length r" and "1 < length r"
    using assms by linarith+
  then have "numerov_loop h f (length (numerov_seed r l))
               ((u0[0 := Fin 0])[1 := fpow (r ! 1) (l + 1)]) =
             numerov_loop h f (length (numerov_seed r l)) (numerov_seed r l)"
    using assms by (intro numerov_loop_assigns_all) (simp_all add: numerov_seed_def)
  then show ?thesis by simp
qed


section \<open>The loop on the store\<close>

lemma store_fold_eq:
  assumes "ua < length s" and "fa < length s" and "fa \<noteq> ua"
  shows "fold (\<lambda>i s. s[ua := numerov_step h (s ! fa) i (s ! ua)]) js s =
         s[ua := fold (numerov_step h (s ! fa)) js (s ! ua)]"
  using assms
proof (induction js arbitrary: s)
  case Nil
  then show ?case by simp
next
  case (Cons a js)
  let ?s = "s[ua := numerov_step h (s ! fa) a (s ! ua)]"
  have "fold (\<lambda>i s. s[ua := numerov_step h (s ! fa) i (s ! ua)]) (a # js) s =
        ?s[ua := fold (numerov_step h (?s ! fa)) js (?s ! ua)]"
    using Cons.prems by (simp add: Cons.IH)
  also have "\<dots> = s[ua := fold (numerov_step h (s ! fa)) (a # js) (s ! ua)]"
    using Cons.prems by simp
  finally show ?case .
qed

lemma store_loop_eq:
  assumes "ua < length s" and "fa < length s" and "fa \<noteq> ua"
  shows "store_loop h fa ua N s = s[ua := numerov_loop h (s ! fa) N (s ! ua)]"
  unfolding store_loop_def numerov_loop_def using assms by (rule store_fold_eq)

lemma numerov_solve_st_short:
  "length (s ! ra) < 2 \<Longrightarrow> numerov_solve_st V ra k l s = (Inl IndexError, s)"
  by (simp add: numerov_solve_st_def)

text \<open>A successful call appends three arrays, \<open>u\<close>, \<open>V_eff\<close> and \<open>f\<close>, and writes nowhere else.\<close>

lemma numerov_solve_st_long:
  assumes "ra < length s" and "2 \<le> length (s ! ra)"
  shows "numerov_solve_st V ra k l s =
         (Inr (ra, length s),
          s @ [numerov_loop ((s ! ra) ! 1 - (s ! ra) ! 0) (numerov_f V (s ! ra) k l)
                 (length (s ! ra)) (numerov_seed (s ! ra) l),
               numerov_V_eff V (s ! ra) l,
               numerov_f V (s ! ra) k l])"
  using assms
  by (simp add: numerov_solve_st_def alloc_def Let_def store_loop_eq nth_append
      list_update_append numerov_seed_def numerov_f_def)

lemma deref_numerov_solve_st:
  assumes "ra < length s"
  shows "deref (numerov_solve_st V ra k l s) = numerov_solve V (s ! ra) k l"
proof (cases "length (s ! ra) < 2")
  case True
  then show ?thesis
    by (simp add: numerov_solve_st_short deref_def numerov_solve_def)
next
  case False
  then show ?thesis
    using assms
    by (simp add: numerov_solve_st_long deref_def numerov_solve_returns nth_append)
qed

lemma frame_numerov_solve_st:
  assumes "ra < length s"
  shows "take (length s) (snd (numerov_solve_st V ra k l s)) = s"
proof (cases "length (s ! ra) < 2")
  case True
  then show ?thesis
    by (simp add: numerov_solve_st_short)
next
  case False
  then show ?thesis
    using assms by (simp add: numerov_solve_st_long)
qed


section \<open>Claims\<close>

text \<open>
  C1 (as amended). At every grid point \<open>i\<close> the solver computes the effective
  potential \<open>V_eff[i] = V(r[i]) + l * (l + 1) / r[i]^2\<close> and the recurrence driver
  \<open>f[i] = k * k - V_eff[i]\<close>, where \<open>k\<close> is the third argument of the call: the argument
  is the wavenumber and the code squares it, it is not the squared wavenumber.
\<close>

theorem numerov_driver:
  assumes "i < length r"
  shows "length (numerov_V_eff V r l) = length r \<and>
         length (numerov_f V r k l) = length r \<and>
         numerov_V_eff V r l ! i = V (r ! i) + fl_of_int (l * (l + 1)) / (r ! i * r ! i) \<and>
         numerov_f V r k l ! i = k * k - numerov_V_eff V r l ! i"
  using assms by (simp add: numerov_f_def numerov_V_eff_def square_def fpow_2_times)

theorem numerov_driver_witness:
  "(2::nat) < length [Fin 1, Fin 2, Fin 3] \<and>
   numerov_V_eff square_well_default [Fin 1, Fin 2, Fin 3] 1 ! 2 = Fin (- 10 + 2 / 9) \<and>
   numerov_f square_well_default [Fin 1, Fin 2, Fin 3] (Fin 2) 1 ! 2 = Fin (4 - (- 10 + 2 / 9))"
  using numerov_driver [of 2 "[Fin 1, Fin 2, Fin 3]" square_well_default 1 "Fin 2"]
  by (simp add: square_well_default_def square_well_def fl_of_int_def fl_arith)

text \<open>
  C1 as stated reads the third argument as the squared wavenumber \<open>k2\<close> and has
  \<open>f[i] = k2 - V_eff[i]\<close>. With a zero potential, \<open>l = 0\<close> and the argument \<open>-1\<close>, the
  driver computed at index 0 is \<open>1\<close>, not \<open>-1\<close>.
\<close>

theorem numerov_driver_counterexample:
  "numerov_f (\<lambda>x. Fin 0) [Fin 1, Fin 2, Fin 3] (Fin (- 1)) 0 ! 0 \<noteq>
   Fin (- 1) - numerov_V_eff (\<lambda>x. Fin 0) [Fin 1, Fin 2, Fin 3] 0 ! 0"
  by (simp add: numerov_f_def numerov_V_eff_def square_def fl_of_int_def fpow_def fl_arith)

text \<open>
  C2. On a grid of \<open>N \<ge> 3\<close> points the call returns, and for each interior index
  \<open>i = 1 .. N-2\<close> the returned array satisfies the three-point Numerov formula
  \<open>u[i+1] = (2 * (1 - 5h^2/12 * f[i]) * u[i] - (1 + h^2/12 * f[i-1]) * u[i-1]) /
  (1 + h^2/12 * f[i+1])\<close>, with \<open>h = r[1] - r[0]\<close> and \<open>f\<close> the driver the call computes.
  Equality is identity of values: a NaN equals itself here.
\<close>

theorem numerov_recurrence:
  assumes "3 \<le> length r" and "1 \<le> i" and "i \<le> length r - 2"
  shows "\<exists>u. numerov_solve V r k l = Inr (r, u) \<and>
           (let h = r ! 1 - r ! 0; f = numerov_f V r k l in
            u ! (i + 1) =
              (Fin 2 * (Fin 1 - (Fin 5 * fpow h 2 / Fin 12) * f ! i) * u ! i -
               (Fin 1 + (fpow h 2 / Fin 12) * f ! (i - 1)) * u ! (i - 1)) /
              (Fin 1 + (fpow h 2 / Fin 12) * f ! (i + 1)))"
proof -
  let ?h = "r ! 1 - r ! 0" and ?f = "numerov_f V r k l"
  let ?u = "numerov_loop ?h ?f (length r) (numerov_seed r l)"
  have "numerov_solve V r k l = Inr (r, ?u)"
    using assms by (simp add: numerov_solve_returns)
  moreover have "?u ! (i + 1) = numerov_update ?h ?f i (?u ! i) (?u ! (i - 1))"
    unfolding numerov_loop_def using assms
    by (intro fold_numerov_step_recurrence) simp_all
  ultimately show ?thesis
    by (simp add: numerov_update_def numerov_denominator_def Let_def)
qed

theorem numerov_recurrence_witness:
  "3 \<le> length [Fin 1, Fin 2, Fin 3] \<and> (1::nat) \<le> 1 \<and> 1 \<le> length [Fin 1, Fin 2, Fin 3] - 2 \<and>
   (\<exists>u. numerov_solve square_well_default [Fin 1, Fin 2, Fin 3] (Fin 1) 0 =
          Inr ([Fin 1, Fin 2, Fin 3], u) \<and>
        u ! 2 = (Fin 2 * (Fin 1 - (Fin 5 * Fin 1 / Fin 12) * Fin 11) * u ! 1 -
                 (Fin 1 + (Fin 1 / Fin 12) * Fin 11) * u ! 0) /
                (Fin 1 + (Fin 1 / Fin 12) * Fin 11))"
  using numerov_recurrence [of "[Fin 1, Fin 2, Fin 3]" 1 square_well_default "Fin 1" 0]
  by (simp add: numerov_f_def numerov_V_eff_def square_well_default_def square_well_def
      fl_of_int_def fl_arith fpow_def square_def Let_def numeral_2_eq_2)

text \<open>
  C3. The returned array carries the two seed values unchanged: \<open>u[0] = 0\<close> and
  \<open>u[1] = r[1] ** (l + 1)\<close>. The loop assigns the indices from 2 on only, so this holds
  on every grid the call accepts, from two points on.
\<close>

theorem numerov_boundary:
  assumes "2 \<le> length r"
  shows "\<exists>u. numerov_solve V r k l = Inr (r, u) \<and> u ! 0 = Fin 0 \<and> u ! 1 = fpow (r ! 1) (l + 1)"
proof -
  have "0 < length r" and "1 < length r"
    using assms by linarith+
  then have "numerov_seed r l ! 0 = Fin 0" and "numerov_seed r l ! 1 = fpow (r ! 1) (l + 1)"
    by (simp_all add: numerov_seed_def)
  then show ?thesis
    using assms by (simp add: numerov_solve_returns numerov_loop_seed)
qed

theorem numerov_boundary_witness:
  "2 \<le> length [Fin 1, Fin 2, Fin 3] \<and>
   (\<exists>u. numerov_solve square_well_default [Fin 1, Fin 2, Fin 3] (Fin 1) 2 =
          Inr ([Fin 1, Fin 2, Fin 3], u) \<and> u ! 0 = Fin 0 \<and> u ! 1 = Fin 8)"
  using numerov_boundary [of "[Fin 1, Fin 2, Fin 3]" square_well_default "Fin 1" 2]
  by (simp add: fpow_def)




text \<open>
  C5 (as amended). On a grid of \<open>N \<ge> 3\<close> points the call returns the 2-tuple
  \<open>(r, u)\<close>: the input grid itself and the wavefunction \<open>u\<close>. It is \<open>u\<close>, the second
  component, that is an ordered sequence of exactly \<open>N\<close> values: the array seeded with
  \<open>u[0] = 0\<close> and \<open>u[1] = r[1] ** (l + 1)\<close> and filled by the Numerov recurrence at the
  indices \<open>2 .. N-1\<close>. The returned value itself has length 2.
\<close>

theorem numerov_output:
  assumes "3 \<le> length r"
  shows "\<exists>u. numerov_solve_value V r k l = Inr (Tuple [Array r, Array u]) \<and>
           py_len (Tuple [Array r, Array u]) = 2 \<and>
           length u = length r \<and>
           u ! 0 = Fin 0 \<and> u ! 1 = fpow (r ! 1) (l + 1) \<and>
           (\<forall>i. 1 \<le> i \<and> i \<le> length r - 2 \<longrightarrow>
              (let h = r ! 1 - r ! 0; f = numerov_f V r k l in
               u ! (i + 1) =
                 (Fin 2 * (Fin 1 - (Fin 5 * fpow h 2 / Fin 12) * f ! i) * u ! i -
                  (Fin 1 + (fpow h 2 / Fin 12) * f ! (i - 1)) * u ! (i - 1)) /
                 (Fin 1 + (fpow h 2 / Fin 12) * f ! (i + 1))))"
proof -
  let ?h = "r ! 1 - r ! 0" and ?f = "numerov_f V r k l"
  let ?u = "numerov_loop ?h ?f (length r) (numerov_seed r l)"
  have "0 < length r" and "1 < length r" and "2 \<le> length r"
    using assms by linarith+
  then have ret: "numerov_solve_value V r k l = Inr (Tuple [Array r, Array ?u])"
    and u0: "?u ! 0 = Fin 0" and u1: "?u ! 1 = fpow (r ! 1) (l + 1)"
    by (simp_all add: numerov_solve_value_def numerov_solve_returns numerov_loop_seed
        numerov_seed_def)
  have rec: "?u ! (i + 1) = numerov_update ?h ?f i (?u ! i) (?u ! (i - 1))"
    if "1 \<le> i \<and> i \<le> length r - 2" for i
  proof -
    from that assms have "i + 2 \<le> length r"
      by linarith
    with that have "1 \<le> i" and "i + 2 \<le> length (numerov_seed r l)"
      by simp_all
    from numerov_loop_recurrence [OF this, of ?h ?f] show ?thesis
      by simp
  qed
  have "\<forall>i. 1 \<le> i \<and> i \<le> length r - 2 \<longrightarrow>
          (let h = ?h; f = ?f in
           ?u ! (i + 1) =
             (Fin 2 * (Fin 1 - (Fin 5 * fpow h 2 / Fin 12) * f ! i) * ?u ! i -
              (Fin 1 + (fpow h 2 / Fin 12) * f ! (i - 1)) * ?u ! (i - 1)) /
             (Fin 1 + (fpow h 2 / Fin 12) * f ! (i + 1)))"
    using rec by (simp add: numerov_update_def numerov_denominator_def Let_def)
  with ret u0 u1 show ?thesis
    by (intro exI [of _ ?u]) simp
qed

theorem numerov_output_witness:
  "3 \<le> length [Fin 1, Fin 2, Fin 3] \<and>
   (\<exists>u. numerov_solve_value square_well_default [Fin 1, Fin 2, Fin 3] (Fin 1) 0 =
          Inr (Tuple [Array [Fin 1, Fin 2, Fin 3], Array u]) \<and>
        length u = 3 \<and> u ! 0 = Fin 0 \<and> u ! 1 = Fin 2 \<and>
        u ! 2 = (Fin 2 * (Fin 1 - (Fin 5 * Fin 1 / Fin 12) * Fin 11) * u ! 1 -
                 (Fin 1 + (Fin 1 / Fin 12) * Fin 11) * u ! 0) /
                (Fin 1 + (Fin 1 / Fin 12) * Fin 11))"
proof -
  let ?r = "[Fin 1, Fin 2, Fin 3]"
  have len: "3 \<le> length ?r" by simp
  from numerov_output [OF len, of square_well_default "Fin 1" 0]
  obtain u where u: "numerov_solve_value square_well_default ?r (Fin 1) 0 =
        Inr (Tuple [Array ?r, Array u])"
      "length u = length ?r" "u ! 0 = Fin 0" "u ! 1 = fpow (?r ! 1) (0 + 1)"
      "\<forall>i. 1 \<le> i \<and> i \<le> length ?r - 2 \<longrightarrow>
         (let h = ?r ! 1 - ?r ! 0; f = numerov_f square_well_default ?r (Fin 1) 0 in
          u ! (i + 1) =
            (Fin 2 * (Fin 1 - (Fin 5 * fpow h 2 / Fin 12) * f ! i) * u ! i -
             (Fin 1 + (fpow h 2 / Fin 12) * f ! (i - 1)) * u ! (i - 1)) /
            (Fin 1 + (fpow h 2 / Fin 12) * f ! (i + 1)))"
    by blast
  from u(5) have "(1::nat) \<le> 1 \<and> 1 \<le> length ?r - 2 \<longrightarrow>
         (let h = ?r ! 1 - ?r ! 0; f = numerov_f square_well_default ?r (Fin 1) 0 in
          u ! (1 + 1) =
            (Fin 2 * (Fin 1 - (Fin 5 * fpow h 2 / Fin 12) * f ! 1) * u ! 1 -
             (Fin 1 + (fpow h 2 / Fin 12) * f ! (1 - 1)) * u ! (1 - 1)) /
            (Fin 1 + (fpow h 2 / Fin 12) * f ! (1 + 1)))"
    by (rule spec)
  then have "u ! 2 = (Fin 2 * (Fin 1 - (Fin 5 * Fin 1 / Fin 12) * Fin 11) * u ! 1 -
                 (Fin 1 + (Fin 1 / Fin 12) * Fin 11) * u ! 0) /
                (Fin 1 + (Fin 1 / Fin 12) * Fin 11)"
    by (simp add: numerov_f_def numerov_V_eff_def square_well_default_def square_well_def
      fl_of_int_def fl_arith fpow_def square_def Let_def numeral_2_eq_2)
  with u(1-4) show ?thesis
    by (intro conjI exI [of _ u]) (simp_all add: fpow_def)
qed

text \<open>
  C5 as stated has the output be the sequence \<open>u\<close>, as long as the grid. On the grid
  \<open>[1, 2, 3]\<close> the returned value is a tuple of two arrays: its length is 2, the grid's
  is 3.
\<close>

theorem numerov_output_counterexample:
  "numerov_solve_value (\<lambda>x. Fin 0) [Fin 1, Fin 2, Fin 3] (Fin 1) 0 =
     Inr (Tuple [Array [Fin 1, Fin 2, Fin 3], Array [Fin 0, Fin 2, Fin (28 / 13)]]) \<and>
   py_len (Tuple [Array [Fin 1, Fin 2, Fin 3], Array [Fin 0, Fin 2, Fin (28 / 13)]]) = 2 \<and>
   length [Fin 1, Fin 2, Fin 3] = 3"
  by (simp add: numerov_solve_value_def numerov_eval)

text \<open>
  C6 (as amended). The solver does not validate its input. A grid of fewer than two
  points does fail, but with the \<open>IndexError\<close> of reading \<open>r[1]\<close>. Every grid of two or
  more points is accepted, uniform or not, increasing or not, whatever values the
  potential produces: when \<open>k**2\<close> does not overflow (and \<open>l\<close> is an integer of machine
  size, so that no conversion of it can fail), the call returns the grid and an array of
  \<open>N\<close> values. That array is never partially filled: every entry has been assigned, so
  the result is the same whatever the array held before the seeds were stored. It may
  be silently incorrect, and contain inf or NaN.
\<close>

theorem numerov_solve_unvalidated:
  "(length r < 2 \<longrightarrow> numerov_solve_pyfloat V r k l = Inl IndexError) \<and>
   (2 \<le> length r \<and> \<not> float_square_overflows k \<and> \<bar>l\<bar> < 2 ^ 31 \<longrightarrow>
      (\<exists>u. numerov_solve_pyfloat V r k l = Inr (r, u) \<and> length u = length r \<and>
           (\<forall>u0. length u0 = length r \<longrightarrow>
              numerov_loop (r ! 1 - r ! 0) (numerov_f V r k l) (length r)
                ((u0[0 := Fin 0])[1 := fpow (r ! 1) (l + 1)]) = u)))"
proof (intro conjI impI)
  assume "length r < 2"
  then show "numerov_solve_pyfloat V r k l = Inl IndexError"
    by (simp add: numerov_solve_pyfloat_def)
next
  let ?u = "numerov_loop (r ! 1 - r ! 0) (numerov_f V r k l) (length r) (numerov_seed r l)"
  assume ok: "2 \<le> length r \<and> \<not> float_square_overflows k \<and> \<bar>l\<bar> < 2 ^ 31"
  then have "numerov_solve_pyfloat V r k l = Inr (r, ?u)"
    by (simp add: numerov_solve_pyfloat_def numerov_solve_returns)
  moreover have "length ?u = length r"
    by simp
  moreover have "\<forall>u0. length u0 = length r \<longrightarrow>
      numerov_loop (r ! 1 - r ! 0) (numerov_f V r k l) (length r)
        ((u0[0 := Fin 0])[1 := fpow (r ! 1) (l + 1)]) = ?u"
    using ok by (intro allI impI numerov_solve_any_initial) simp_all
  ultimately show "\<exists>u. numerov_solve_pyfloat V r k l = Inr (r, u) \<and> length u = length r \<and>
           (\<forall>u0. length u0 = length r \<longrightarrow>
              numerov_loop (r ! 1 - r ! 0) (numerov_f V r k l) (length r)
                ((u0[0 := Fin 0])[1 := fpow (r ! 1) (l + 1)]) = u)"
    by blast
qed

theorem numerov_solve_unvalidated_witness:
  "length [Fin 1] < 2 \<and>
   numerov_solve_pyfloat square_well_default [Fin 1] (Fin 1) 0 = Inl IndexError \<and>
   2 \<le> length [Fin 1, Fin 3] \<and> \<not> float_square_overflows (Fin 1) \<and> \<bar>0::int\<bar> < 2 ^ 31 \<and>
   (\<exists>u. numerov_solve_pyfloat square_well_default [Fin 1, Fin 3] (Fin 1) 0 =
          Inr ([Fin 1, Fin 3], u) \<and> length u = 2 \<and>
        numerov_loop ([Fin 1, Fin 3] ! 1 - [Fin 1, Fin 3] ! 0)
          (numerov_f square_well_default [Fin 1, Fin 3] (Fin 1) 0) 2
          (([PInf, NaN][0 := Fin 0])[1 := fpow ([Fin 1, Fin 3] ! 1) (0 + 1)]) = u)"
proof -
  have short: "length [Fin 1] < 2" by simp
  have long: "2 \<le> length [Fin 1, Fin 3] \<and> \<not> float_square_overflows (Fin 1) \<and> \<bar>0::int\<bar> < 2 ^ 31"
    by (simp add: float_square_overflows_def)
  have a: "numerov_solve_pyfloat square_well_default [Fin 1] (Fin 1) 0 = Inl IndexError"
    using numerov_solve_unvalidated [of "[Fin 1]" square_well_default "Fin 1" 0] short
    by blast
  from numerov_solve_unvalidated [of "[Fin 1, Fin 3]" square_well_default "Fin 1" 0] long
  obtain u where u: "numerov_solve_pyfloat square_well_default [Fin 1, Fin 3] (Fin 1) 0 =
        Inr ([Fin 1, Fin 3], u)" "length u = length [Fin 1, Fin 3]"
      "\<forall>u0. length u0 = length [Fin 1, Fin 3] \<longrightarrow>
         numerov_loop ([Fin 1, Fin 3] ! 1 - [Fin 1, Fin 3] ! 0)
           (numerov_f square_well_default [Fin 1, Fin 3] (Fin 1) 0) (length [Fin 1, Fin 3])
           ((u0[0 := Fin 0])[1 := fpow ([Fin 1, Fin 3] ! 1) (0 + 1)]) = u"
    by blast
  from u(3) have "length [PInf, NaN] = length [Fin 1, Fin 3] \<longrightarrow>
         numerov_loop ([Fin 1, Fin 3] ! 1 - [Fin 1, Fin 3] ! 0)
           (numerov_f square_well_default [Fin 1, Fin 3] (Fin 1) 0) (length [Fin 1, Fin 3])
           (([PInf, NaN][0 := Fin 0])[1 := fpow ([Fin 1, Fin 3] ! 1) (0 + 1)]) = u"
    by (rule spec)
  then have "numerov_loop ([Fin 1, Fin 3] ! 1 - [Fin 1, Fin 3] ! 0)
           (numerov_f square_well_default [Fin 1, Fin 3] (Fin 1) 0) 2
           (([PInf, NaN][0 := Fin 0])[1 := fpow ([Fin 1, Fin 3] ! 1) (0 + 1)]) = u"
    by (simp add: numeral_2_eq_2)
  with short long a u(1,2) show ?thesis
    by (intro conjI exI [of _ u]) (simp_all add: numeral_2_eq_2)
qed

text \<open>
  C6 as stated wants a domain error on each of three malformed inputs. A grid of two
  points, the non-uniform grid \<open>[1, 2, 4]\<close> and a potential that is NaN everywhere all
  return an array.
\<close>

theorem numerov_solve_unvalidated_counterexample:
  "numerov_solve_pyfloat (\<lambda>x. Fin 0) [Fin 1, Fin 2] (Fin 1) 0 =
     Inr ([Fin 1, Fin 2], [Fin 0, Fin 2]) \<and>
   numerov_solve_pyfloat (\<lambda>x. Fin 0) [Fin 1, Fin 2, Fin 4] (Fin 1) 0 =
     Inr ([Fin 1, Fin 2, Fin 4], [Fin 0, Fin 2, Fin (28 / 13)]) \<and>
   numerov_solve_pyfloat (\<lambda>x. NaN) [Fin 1, Fin 2, Fin 3] (Fin 1) 0 =
     Inr ([Fin 1, Fin 2, Fin 3], [Fin 0, Fin 2, NaN])"
  by (simp add: numerov_solve_pyfloat_def float_square_overflows_def numerov_eval)

text \<open>
  C7. Run on a store, the call leaves every array that existed before it as it was, the
  grid included; what it returns is determined by the contents of the grid and the other
  three arguments alone, so two calls with the same inputs return the same contents
  whatever else the two stores hold; and that result is the one of the function
  \<open>numerov_solve\<close> on values.
\<close>

theorem numerov_solve_pure:
  assumes "ra < length s" and "ra' < length s'" and "s ! ra = s' ! ra'"
  shows "take (length s) (snd (numerov_solve_st V ra k l s)) = s \<and>
         deref (numerov_solve_st V ra k l s) = deref (numerov_solve_st V ra' k l s') \<and>
         deref (numerov_solve_st V ra k l s) = numerov_solve V (s ! ra) k l"
  using assms by (simp add: frame_numerov_solve_st deref_numerov_solve_st)

theorem numerov_solve_pure_witness:
  "(0::nat) < length [[Fin 1, Fin 2, Fin 3]] \<and>
   (1::nat) < length [[Fin 7], [Fin 1, Fin 2, Fin 3]] \<and>
   [[Fin 1, Fin 2, Fin 3]] ! 0 = [[Fin 7], [Fin 1, Fin 2, Fin 3]] ! 1 \<and>
   take 1 (snd (numerov_solve_st square_well_default 0 (Fin 1) 0 [[Fin 1, Fin 2, Fin 3]])) =
     [[Fin 1, Fin 2, Fin 3]] \<and>
   deref (numerov_solve_st square_well_default 0 (Fin 1) 0 [[Fin 1, Fin 2, Fin 3]]) =
     deref (numerov_solve_st square_well_default 1 (Fin 1) 0 [[Fin 7], [Fin 1, Fin 2, Fin 3]])"
  using numerov_solve_pure [of 0 "[[Fin 1, Fin 2, Fin 3]]" 1 "[[Fin 7], [Fin 1, Fin 2, Fin 3]]"
      square_well_default "Fin 1" 0]
  by simp

text \<open>
  C10. The result is an even function of the third argument: \<open>numerov_solve(V, r, -k, l)\<close>
  and \<open>numerov_solve(V, r, k, l)\<close> are the same, because \<open>k\<close> enters only as \<open>k**2\<close>.
\<close>

theorem numerov_even_in_k: "numerov_solve V r (- k) l = numerov_solve V r k l"
  by (simp add: numerov_solve_def numerov_f_def fpow_neg_2)

end
